theory Spec2Isabelle
  imports Complex_Main "HOL-Library.Multiset"
begin

section \<open>Data model\<close>

text \<open>
  The feature pipeline of \<^verbatim>\<open>dataset/spectogram_features/preprocess.py\<close>.
  Samples and features are floating-point numbers in the source; the model computes with
  the real and complex numbers they stand for, so rounding (and the final
  \<^verbatim>\<open>astype(np.float32)\<close>) is the identity here.

  A numpy array carries its shape. The model keeps nested lists and, next to them, the
  lengths of the inner axes, so that an array with an empty outer axis still knows its
  shape: \<open>Arr2 c rows\<close> has shape \<open>(length rows, c)\<close> and \<open>Arr3 t m chans\<close> has shape
  \<open>(length chans, t, m)\<close>.
\<close>

datatype error =
    SoundFileError        \<comment> \<open>soundfile.read cannot open or decode the file\<close>
  | ValueError            \<comment> \<open>numpy: shapes do not fit, nothing to concatenate, empty axis\<close>
  | ParameterError        \<comment> \<open>librosa: invalid parameter\<close>
  | ResampleError         \<comment> \<open>librosa.resample fails\<close>
  | IndexError            \<comment> \<open>random.choice on an empty sequence, index out of range\<close>
  | UnboundLocalError     \<comment> \<open>calculate_scalar_of_tensor: axis was never assigned\<close>
  | PlotError             \<comment> \<open>the debug visualisation fails\<close>

datatype 'a ndarray =
    Arr1 "'a list"
  | Arr2 nat "'a list list"
  | Arr3 nat nat "'a list list list"

fun shape :: "'a ndarray \<Rightarrow> nat list" where
  "shape (Arr1 xs) = [length xs]"
| "shape (Arr2 c rows) = [length rows, c]"
| "shape (Arr3 t m chans) = [length chans, t, m]"

fun wf_array :: "'a ndarray \<Rightarrow> bool" where
  "wf_array (Arr1 xs) = True"
| "wf_array (Arr2 c rows) = list_all (\<lambda>r. length r = c) rows"
| "wf_array (Arr3 t m chans) =
     list_all (\<lambda>ch. length ch = t \<and> list_all (\<lambda>fr. length fr = m) ch) chans"

text \<open>
  What \<^verbatim>\<open>soundfile.read\<close> returns as data: a 1-D array for a mono file, a 2-D array
  \<open>[time, channel]\<close> otherwise. A decoded file has at least one channel.
\<close>

datatype sf_data = Mono "real list" | Multi nat "real list list"

fun wf_sf :: "sf_data \<Rightarrow> bool" where
  "wf_sf (Mono xs) = True"
| "wf_sf (Multi c rows) = (1 \<le> c \<and> list_all (\<lambda>r. length r = c) rows)"

type_synonym audio_store = "string \<Rightarrow> (sf_data \<times> nat) option"

definition soundfile_read :: "audio_store \<Rightarrow> string \<Rightarrow> error + (sf_data \<times> nat)" where
  "soundfile_read store audio_path =
     (case store audio_path of None \<Rightarrow> Inl SoundFileError | Some r \<Rightarrow> Inr r)"

text \<open>
  The module \<^verbatim>\<open>spectogram_configs\<close> (imported as \<^verbatim>\<open>cfg\<close>) is not part of the
  sources at hand, and neither are the numerics of librosa nor the plotting helpers: the
  constants, the mel filter bank that \<^verbatim>\<open>librosa.filters.mel(...).T\<close> builds at import
  time, the resampler and the two helpers of the debug plot are parameters of the model.
\<close>

record env =
  working_sample_rate :: nat
  NFFT :: nat
  frame_size :: nat
  hop_size :: nat
  mel_bins :: nat
  audio_channels :: nat
  MEL_FILTER_BANK_MATRIX :: "real list list"
  librosa_resample :: "nat \<Rightarrow> nat \<Rightarrow> real list \<Rightarrow> error + real list"
  create_event_matrix :: "nat \<Rightarrow> real list \<Rightarrow> real list \<Rightarrow> error + real list list"
  plot_debug_image :: "real list list \<Rightarrow> real list list \<Rightarrow> string \<Rightarrow> string \<Rightarrow> error + unit"

section \<open>Audio loader\<close>

definition reshape_column :: "'a list \<Rightarrow> 'a ndarray" where
  \<comment> \<open>\<^verbatim>\<open>x.reshape(-1, 1)\<close> of a 1-D array\<close>
  "reshape_column xs = Arr2 1 (map (\<lambda>x. [x]) xs)"

definition mean_axis1 :: "real list list \<Rightarrow> real list" where
  \<comment> \<open>\<^verbatim>\<open>x.mean(1)\<close>; the rows are not empty, as a decoded file has a channel\<close>
  "mean_axis1 rows = map (\<lambda>r. sum_list r / real (length r)) rows"

definition np_repeat_axis1 :: "nat \<Rightarrow> 'a list \<Rightarrow> 'a ndarray" where
  \<comment> \<open>\<^verbatim>\<open>np.repeat(v.reshape(-1, 1), n, axis=1)\<close>\<close>
  "np_repeat_axis1 n v = Arr2 n (map (\<lambda>x. replicate n x) v)"

fun as_2d :: "sf_data \<Rightarrow> nat \<times> real list list" where
  \<comment> \<open>lines 25-26: a 1-D array becomes one column\<close>
  "as_2d (Mono xs) = (1, map (\<lambda>x. [x]) xs)"
| "as_2d (Multi c rows) = (c, rows)"

definition channel_stage :: "nat \<Rightarrow> sf_data \<Rightarrow> real ndarray" where
  \<comment> \<open>lines 25-33 of read_multichannel_audio, with \<open>n = cfg.audio_channels\<close>\<close>
  "channel_stage n sf_data =
     (let (s, rows) = as_2d sf_data in
      if s < n then np_repeat_axis1 n (mean_axis1 rows)
      else if n = 1 then reshape_column (mean_axis1 rows)
      else if s > n then Arr2 n (map (take n) rows)
      else Arr2 s rows)"

fun sequence_sum :: "('e + 'a) list \<Rightarrow> 'e + 'a list" where
  \<comment> \<open>a list comprehension whose elements may raise: the first exception leaves it\<close>
  "sequence_sum [] = Inr []"
| "sequence_sum (Inl e # rs) = Inl e"
| "sequence_sum (Inr x # rs) = (case sequence_sum rs of Inl e \<Rightarrow> Inl e | Inr xs \<Rightarrow> Inr (x # xs))"

definition column :: "'a list list \<Rightarrow> nat \<Rightarrow> 'a list" where
  \<comment> \<open>\<^verbatim>\<open>a[:, i]\<close>\<close>
  "column rows i = map (\<lambda>r. r ! i) rows"

definition np_array_T :: "'a list list \<Rightarrow> error + 'a ndarray" where
  \<comment> \<open>\<^verbatim>\<open>np.array(cols).T\<close>: no column gives an empty 1-D array, columns of different
      lengths are refused\<close>
  "np_array_T cols =
     (case cols of
        [] \<Rightarrow> Inr (Arr1 [])
      | c # cs \<Rightarrow>
          if list_all (\<lambda>d. length d = length c) cs
          then Inr (Arr2 (length cols) (map (\<lambda>t. map (\<lambda>d. d ! t) cols) [0..<length c]))
          else Inl ValueError)"

definition resample_stage :: "env \<Rightarrow> nat \<Rightarrow> nat \<Rightarrow> real ndarray \<Rightarrow> error + real ndarray" where
  \<comment> \<open>lines 37-41; the array is 2-D here\<close>
  "resample_stage E sample_rate target_fs a =
     (case a of
        Arr2 channels_num rows \<Rightarrow>
          (case sequence_sum (map (\<lambda>i. librosa_resample E sample_rate target_fs (column rows i))
                                  [0..<channels_num]) of
             Inl e \<Rightarrow> Inl e
           | Inr cols \<Rightarrow> np_array_T cols)
      | _ \<Rightarrow> Inl IndexError)"

definition read_multichannel_audio ::
  "env \<Rightarrow> audio_store \<Rightarrow> string \<Rightarrow> nat option \<Rightarrow> error + real ndarray" where
  "read_multichannel_audio E store audio_path target_fs =
     (case soundfile_read store audio_path of
        Inl e \<Rightarrow> Inl e
      | Inr (sf, sample_rate) \<Rightarrow>
          let multichannel_audio = channel_stage (audio_channels E) sf in
          (case target_fs of
             None \<Rightarrow> Inr multichannel_audio
           | Some fs \<Rightarrow>
               if sample_rate \<noteq> fs then resample_stage E sample_rate fs multichannel_audio
               else Inr multichannel_audio))"

section \<open>Multichannel STFT engine\<close>

text \<open>
  \<^verbatim>\<open>librosa.core.stft\<close> with \<^verbatim>\<open>center=True, pad_mode='reflect'\<close>: the window is padded
  with zeros to \<open>n_fft\<close> entries, the signal is extended by \<open>n_fft // 2\<close> reflected samples
  on both sides, cut into frames of \<open>n_fft\<close> samples that start every \<open>hop_length\<close>
  samples, and each windowed frame goes through the one-sided discrete Fourier transform.
\<close>

definition np_hanning :: "nat \<Rightarrow> real list" where
  "np_hanning M =
     (if M = 1 then [1]
      else map (\<lambda>n. 1 / 2 - 1 / 2 * cos (2 * pi * real n / real (M - 1))) [0..<M])"

definition pad_center :: "real list \<Rightarrow> nat \<Rightarrow> error + real list" where
  "pad_center data sz =
     (let n = length data; lpad = (sz - n) div 2 in
      if sz < n then Inl ParameterError
      else Inr (replicate lpad 0 @ data @ replicate (sz - n - lpad) 0))"

definition reflect_index :: "nat \<Rightarrow> int \<Rightarrow> nat" where
  \<comment> \<open>the sample that position \<open>i\<close> (negative: left of the signal) of the reflected
      extension of \<open>n\<close> samples shows; the edge sample is not repeated\<close>
  "reflect_index n i =
     (if n \<le> 1 then 0
      else let period = 2 * (int n - 1); k = i mod period
           in nat (if k < int n then k else period - k))"

definition np_pad_reflect :: "nat \<Rightarrow> 'a list \<Rightarrow> error + 'a list" where
  \<comment> \<open>\<^verbatim>\<open>np.pad(y, p, mode='reflect')\<close>: an empty axis cannot be extended\<close>
  "np_pad_reflect p y =
     (if y = [] \<and> 0 < p then Inl ValueError
      else Inr (map (\<lambda>j. y ! reflect_index (length y) (int j - int p)) [0..<length y + 2 * p]))"

definition stft_frames :: "nat \<Rightarrow> nat \<Rightarrow> real list \<Rightarrow> error + real list list" where
  \<comment> \<open>the frames of the centred signal: \<open>1 + (padded length - n_fft) // hop_length\<close> of them\<close>
  "stft_frames n_fft hop_length y =
     (if hop_length = 0 then Inl ParameterError
      else case np_pad_reflect (n_fft div 2) y of
             Inl e \<Rightarrow> Inl e
           | Inr y_padded \<Rightarrow>
               if n_fft = 0 \<or> length y_padded < n_fft then Inl ParameterError
               else Inr (map (\<lambda>t. take n_fft (drop (t * hop_length) y_padded))
                             [0..<1 + (length y_padded - n_fft) div hop_length]))"

definition rfft :: "real list \<Rightarrow> complex list" where
  \<comment> \<open>\<^verbatim>\<open>np.fft.rfft\<close>: the bins \<open>0 .. n // 2\<close> of the discrete Fourier transform\<close>
  "rfft x =
     map (\<lambda>k. \<Sum>n<length x. complex_of_real (x ! n)
                 * cis (- (2 * pi * real k * real n / real (length x))))
         [0..<length x div 2 + 1]"

definition librosa_stft ::
  "real list \<Rightarrow> nat \<Rightarrow> nat \<Rightarrow> nat \<Rightarrow> real list \<Rightarrow> error + complex list list" where
  \<comment> \<open>the transposed result \<open>[frame, frequency]\<close>, which is what the source keeps\<close>
  "librosa_stft y n_fft win_length hop_length window =
     (if hop_length = 0 \<or> length window \<noteq> win_length then Inl ParameterError
      else case pad_center window n_fft of
             Inl e \<Rightarrow> Inl e
           | Inr fft_window \<Rightarrow>
               (case stft_frames n_fft hop_length y of
                  Inl e \<Rightarrow> Inl e
                | Inr y_frames \<Rightarrow>
                    Inr (map (\<lambda>frame. rfft (map2 (*) fft_window frame)) y_frames)))"

definition np_array3 :: "nat \<Rightarrow> 'a list list list \<Rightarrow> error + 'a ndarray" where
  \<comment> \<open>\<^verbatim>\<open>np.array(features)\<close> for a list of 2-D arrays with \<open>f\<close> columns each: an empty list
      gives an empty 1-D array, arrays of different lengths are refused\<close>
  "np_array3 f features =
     (case features of
        [] \<Rightarrow> Inr (Arr1 [])
      | x # xs \<Rightarrow>
          if list_all (\<lambda>y. length y = length x) xs then Inr (Arr3 (length x) f features)
          else Inl ValueError)"

definition multichannel_stft :: "env \<Rightarrow> real ndarray \<Rightarrow> error + complex ndarray" where
  "multichannel_stft E multichannel_signal =
     (case multichannel_signal of
        Arr2 channels_num rows \<Rightarrow>
          (case sequence_sum
                  (map (\<lambda>c. librosa_stft (column rows c) (NFFT E) (frame_size E) (hop_size E)
                                (np_hanning (frame_size E)))
                       [0..<channels_num]) of
             Inl e \<Rightarrow> Inl e
           | Inr features \<Rightarrow> np_array3 (NFFT E div 2 + 1) features)
      | _ \<Rightarrow> Inl ValueError)"

section \<open>Log-mel projector\<close>

definition vec_mat :: "real list \<Rightarrow> real list list \<Rightarrow> nat \<Rightarrow> real list" where
  \<comment> \<open>a vector times a matrix with \<open>c\<close> columns\<close>
  "vec_mat v rows c = map (\<lambda>j. sum_list (map2 (\<lambda>x r. x * r ! j) v rows)) [0..<c]"

fun np_dot :: "real ndarray \<Rightarrow> real ndarray \<Rightarrow> error + real ndarray" where
  \<comment> \<open>\<^verbatim>\<open>np.dot(a, b)\<close> for a 2-D \<open>b\<close>: the last axis of \<open>a\<close> against the first axis of \<open>b\<close>\<close>
  "np_dot (Arr3 t f chans) (Arr2 c rows) =
     (if f = length rows then Inr (Arr3 t c (map (map (\<lambda>fr. vec_mat fr rows c)) chans))
      else Inl ValueError)"
| "np_dot (Arr2 f rs) (Arr2 c rows) =
     (if f = length rows then Inr (Arr2 c (map (\<lambda>r. vec_mat r rows c) rs))
      else Inl ValueError)"
| "np_dot (Arr1 xs) (Arr2 c rows) =
     (if length xs = length rows then Inr (Arr1 (vec_mat xs rows c)) else Inl ValueError)"
| "np_dot a b = Inl ValueError"

definition power_to_db :: "real ndarray \<Rightarrow> real \<Rightarrow> real \<Rightarrow> error + real ndarray" where
  \<comment> \<open>\<^verbatim>\<open>librosa.core.power_to_db(S, ref, amin, top_db=None)\<close>: no clipping from above\<close>
  "power_to_db S ref a_min =
     (if a_min \<le> 0 then Inl ParameterError
      else Inr (map_ndarray
                  (\<lambda>magnitude. 10 * log 10 (max a_min magnitude)
                                 - 10 * log 10 (max a_min \<bar>ref\<bar>))
                  S))"

definition amin :: real where
  \<comment> \<open>the floor \<^verbatim>\<open>amin=1e-10\<close> of line 68\<close>
  "amin = 1 / 10 ^ 10"

definition multichannel_complex_to_log_mel :: "env \<Rightarrow> complex ndarray \<Rightarrow> error + real ndarray" where
  "multichannel_complex_to_log_mel E multichannel_complex_spectogram =
     (let multichannel_power_spectogram =
            map_ndarray (\<lambda>z. (cmod z)\<^sup>2) multichannel_complex_spectogram
      in case np_dot multichannel_power_spectogram
                     (Arr2 (mel_bins E) (MEL_FILTER_BANK_MATRIX E)) of
           Inl e \<Rightarrow> Inl e
         | Inr multichannel_mel_spectogram \<Rightarrow>
             power_to_db multichannel_mel_spectogram 1 amin)"

section \<open>Corpus statistics\<close>

text \<open>
  \<^verbatim>\<open>np.mean\<close> and \<^verbatim>\<open>np.std\<close> over nothing give \<open>nan\<close> (with a warning, not an exception).
\<close>

datatype 'a npval = Num 'a | NaN

definition np_mean :: "'a::real_normed_field list \<Rightarrow> 'a npval" where
  "np_mean xs = (if xs = [] then NaN else Num (sum_list xs / of_nat (length xs)))"

definition np_std :: "'a::real_normed_field list \<Rightarrow> real npval" where
  \<comment> \<open>the root of the mean of \<open>|x - mean|\<^sup>2\<close>\<close>
  "np_std xs =
     (if xs = [] then NaN
      else let mu = sum_list xs / of_nat (length xs)
           in Num (sqrt (sum_list (map (\<lambda>x. (norm (x - mu))\<^sup>2) xs) / real (length xs))))"

definition bin_values :: "'a list list list \<Rightarrow> nat \<Rightarrow> 'a list" where
  \<comment> \<open>the entries \<open>x[c, t, j]\<close> of a 3-D array over all \<open>c\<close> and \<open>t\<close>\<close>
  "bin_values chans j = concat (map (map (\<lambda>fr. fr ! j)) chans)"

fun calculate_scalar_of_tensor ::
  "'a::real_normed_field ndarray \<Rightarrow> error + ('a npval ndarray \<times> real npval ndarray)" where
  "calculate_scalar_of_tensor (Arr2 c rows) =
     Inr (Arr1 (map (\<lambda>j. np_mean (column rows j)) [0..<c]),
          Arr1 (map (\<lambda>j. np_std (column rows j)) [0..<c]))"
| "calculate_scalar_of_tensor (Arr3 t m chans) =
     Inr (Arr1 (map (\<lambda>j. np_mean (bin_values chans j)) [0..<m]),
          Arr1 (map (\<lambda>j. np_std (bin_values chans j)) [0..<m]))"
| "calculate_scalar_of_tensor (Arr1 xs) = Inl UnboundLocalError"

fun concat2_axis1 :: "'a ndarray \<Rightarrow> 'a ndarray \<Rightarrow> error + 'a ndarray" where
  "concat2_axis1 (Arr3 t m x) (Arr3 t' m' y) =
     (if length x = length y \<and> m = m' then Inr (Arr3 (t + t') m (map2 (@) x y))
      else Inl ValueError)"
| "concat2_axis1 (Arr2 c x) (Arr2 c' y) =
     (if length x = length y then Inr (Arr2 (c + c') (map2 (@) x y)) else Inl ValueError)"
| "concat2_axis1 a b = Inl ValueError"

fun np_concatenate_axis1 :: "'a ndarray list \<Rightarrow> error + 'a ndarray" where
  \<comment> \<open>\<^verbatim>\<open>np.concatenate(arrays, axis=1)\<close>: needs an array, an axis 1, and equal other axes\<close>
  "np_concatenate_axis1 [] = Inl ValueError"
| "np_concatenate_axis1 [a] = (case a of Arr1 xs \<Rightarrow> Inl ValueError | _ \<Rightarrow> Inr a)"
| "np_concatenate_axis1 (a # b # rest) =
     (case np_concatenate_axis1 (b # rest) of
        Inl e \<Rightarrow> Inl e
      | Inr r \<Rightarrow> concat2_axis1 a r)"

section \<open>Feature cache writer and the driver\<close>

datatype feature = LogMel "real ndarray" | Spectrogram "complex ndarray"

datatype pyvalue =
    Features feature
  | Times "real list"
  | RealArray "real npval ndarray"
  | ComplexArray "complex npval ndarray"

type_synonym pydict = "(string \<times> pyvalue) list"

text \<open>
  The files written by \<^verbatim>\<open>pickle.dump\<close> and the directories made, with the calls of the
  operating system taken to succeed. The audio files read are kept apart, in the
  \<open>audio_store\<close>.
\<close>

record filesystem =
  files :: "string \<rightharpoonup> pydict"
  dirs :: "string set"

definition os_makedirs :: "string \<Rightarrow> filesystem \<Rightarrow> filesystem" where
  "os_makedirs d fs = fs\<lparr>dirs := insert d (dirs fs)\<rparr>"

definition pickle_dump :: "string \<Rightarrow> pydict \<Rightarrow> filesystem \<Rightarrow> filesystem" where
  \<comment> \<open>\<^verbatim>\<open>with open(path, 'wb') as f: pickle.dump(d, f)\<close>: the file holds \<open>d\<close> afterwards\<close>
  "pickle_dump path d fs = fs\<lparr>files := (files fs)(path \<mapsto> d)\<rparr>"

definition os_path_join :: "string \<Rightarrow> string \<Rightarrow> string" where
  "os_path_join a b =
     (if b \<noteq> [] \<and> hd b = CHR ''/'' then b
      else if a = [] \<or> last a = CHR ''/'' then a @ b
      else a @ ''/'' @ b)"

definition os_path_dirname :: "string \<Rightarrow> string" where
  "os_path_dirname p =
     (let head = rev (dropWhile (\<lambda>c. c \<noteq> CHR ''/'') (rev p)) in
      if head \<noteq> [] \<and> \<not> list_all (\<lambda>c. c = CHR ''/'') head
      then rev (dropWhile (\<lambda>c. c = CHR ''/'') (rev head))
      else head)"

definition random_choice :: "nat \<Rightarrow> 'a list \<Rightarrow> error + 'a" where
  \<comment> \<open>\<^verbatim>\<open>random.choice(seq)\<close>, with the number drawn as an argument\<close>
  "random_choice r seq = (if seq = [] then Inl IndexError else Inr (seq ! (r mod length seq)))"

type_synonym item = "string \<times> real list \<times> real list \<times> string"
  \<comment> \<open>\<open>(audio_path, start_times, end_times, audio_name)\<close>\<close>

definition extract_stft :: "env \<Rightarrow> audio_store \<Rightarrow> string \<Rightarrow> error + complex ndarray" where
  \<comment> \<open>lines 91-92\<close>
  "extract_stft E store audio_path =
     (case read_multichannel_audio E store audio_path (Some (working_sample_rate E)) of
        Inl e \<Rightarrow> Inl e
      | Inr multichannel_waveform \<Rightarrow> multichannel_stft E multichannel_waveform)"

definition extract_logmel :: "env \<Rightarrow> audio_store \<Rightarrow> string \<Rightarrow> error + real ndarray" where
  \<comment> \<open>lines 91-94 when the mode is \<^verbatim>\<open>'logMel'\<close>\<close>
  "extract_logmel E store audio_path =
     (case extract_stft E store audio_path of
        Inl e \<Rightarrow> Inl e
      | Inr feature \<Rightarrow> multichannel_complex_to_log_mel E feature)"

definition cache_path :: "string \<Rightarrow> string \<Rightarrow> string \<Rightarrow> string" where
  \<comment> \<open>line 97\<close>
  "cache_path output_dir audio_name preprocess_mode =
     os_path_join output_dir (audio_name @ ''_'' @ preprocess_mode @ ''_features_and_labels.pkl'')"

definition cache_record :: "feature \<Rightarrow> real list \<Rightarrow> real list \<Rightarrow> pydict" where
  \<comment> \<open>the dictionary of line 99\<close>
  "cache_record feature start_times end_times =
     [(''features'', Features feature), (''start_times'', Times start_times),
      (''end_times'', Times end_times)]"

text \<open>
  The loop of lines 90-100. The mode does not change during a run, so the test of line 93
  is made once, by \<open>preprocess_data\<close> below: \<open>extract\<close> computes the feature of a file in
  the mode of the run and \<open>wrap\<close> says which kind of feature it is. An exception leaves the
  loop, and the function, with the files written so far.
\<close>

fun process_files ::
  "(string \<Rightarrow> error + 'a ndarray) \<Rightarrow> ('a ndarray \<Rightarrow> feature) \<Rightarrow> string \<Rightarrow> string \<Rightarrow> item list \<Rightarrow>
   'a ndarray list \<Rightarrow> filesystem \<Rightarrow> (error + 'a ndarray list) \<times> filesystem" where
  "process_files extract wrap output_dir preprocess_mode [] all_features fs =
     (Inr all_features, fs)"
| "process_files extract wrap output_dir preprocess_mode
     ((audio_path, start_times, end_times, audio_name) # rest) all_features fs =
     (case extract audio_path of
        Inl e \<Rightarrow> (Inl e, fs)
      | Inr feature \<Rightarrow>
          process_files extract wrap output_dir preprocess_mode rest (all_features @ [feature])
            (pickle_dump (cache_path output_dir audio_name preprocess_mode)
               (cache_record (wrap feature) start_times end_times) fs))"

definition analyze_data_sample ::
  "env \<Rightarrow> audio_store \<Rightarrow> string \<Rightarrow> real list \<Rightarrow> real list \<Rightarrow> string \<Rightarrow> string \<Rightarrow> error + unit" where
  \<comment> \<open>lines 113-138 without the printing; the plot is given the audio path in place of the
      file name made from it\<close>
  "analyze_data_sample E store audio_path start_times end_times audio_name plot_path =
     (case soundfile_read store audio_path of
        Inl e \<Rightarrow> Inl e
      | Inr org \<Rightarrow>
          (case extract_logmel E store audio_path of
             Inl e \<Rightarrow> Inl e
           | Inr feature \<Rightarrow>
               (case feature of
                  Arr3 t m (first_channel_feature # others) \<Rightarrow>
                    (case create_event_matrix E t start_times end_times of
                       Inl e \<Rightarrow> Inl e
                     | Inr event_matrix \<Rightarrow>
                         plot_debug_image E first_channel_feature event_matrix plot_path
                           audio_path)
                | _ \<Rightarrow> Inl IndexError)))"

definition run_pipeline ::
  "env \<Rightarrow> audio_store \<Rightarrow> nat \<Rightarrow> (string \<Rightarrow> error + 'a::real_normed_field ndarray) \<Rightarrow>
   ('a ndarray \<Rightarrow> feature) \<Rightarrow> ('a npval ndarray \<Rightarrow> pyvalue) \<Rightarrow> item list \<Rightarrow> string \<Rightarrow> string \<Rightarrow>
   string \<Rightarrow> filesystem \<Rightarrow> (error + unit) \<times> filesystem" where
  \<comment> \<open>lines 88-110\<close>
  "run_pipeline E store rnd extract wrap wrap_mean audio_path_and_labels output_dir
     output_mean_std_file preprocess_mode fs =
     (case process_files extract wrap output_dir preprocess_mode audio_path_and_labels [] fs of
        (Inl e, fs1) \<Rightarrow> (Inl e, fs1)
      | (Inr all_features, fs1) \<Rightarrow>
          (case np_concatenate_axis1 all_features of
             Inl e \<Rightarrow> (Inl e, fs1)
           | Inr all \<Rightarrow>
               (case calculate_scalar_of_tensor all of
                  Inl e \<Rightarrow> (Inl e, fs1)
                | Inr (mean, std) \<Rightarrow>
                    let fs2 = pickle_dump output_mean_std_file
                                [(''mean'', wrap_mean mean), (''std'', RealArray std)] fs1
                    in (case random_choice rnd audio_path_and_labels of
                          Inl e \<Rightarrow> (Inl e, fs2)
                        | Inr (audio_path, start_times, end_times, audio_name) \<Rightarrow>
                            (analyze_data_sample E store audio_path start_times end_times
                               audio_name
                               (os_path_join (os_path_dirname output_mean_std_file)
                                  ''data_sample.png''),
                             fs2)))))"

definition preprocess_data ::
  "env \<Rightarrow> audio_store \<Rightarrow> nat \<Rightarrow> item list \<Rightarrow> string \<Rightarrow> string \<Rightarrow> string \<Rightarrow> filesystem \<Rightarrow>
   (error + unit) \<times> filesystem" where
  "preprocess_data E store rnd audio_path_and_labels output_dir output_mean_std_file
     preprocess_mode fs =
     (let fs0 = os_makedirs output_dir fs in
      if preprocess_mode = ''logMel''
      then run_pipeline E store rnd (extract_logmel E store) LogMel RealArray
             audio_path_and_labels output_dir output_mean_std_file preprocess_mode fs0
      else run_pipeline E store rnd (extract_stft E store) Spectrogram ComplexArray
             audio_path_and_labels output_dir output_mean_std_file preprocess_mode fs0)"

section \<open>Well-formed configurations\<close>

definition valid_stft_config :: "env \<Rightarrow> bool" where
  \<comment> \<open>what librosa asks of the constants: a positive hop, a window no longer than the FFT\<close>
  "valid_stft_config E = (0 < hop_size E \<and> frame_size E \<le> NFFT E \<and> 1 \<le> NFFT E)"

definition wf_mel :: "env \<Rightarrow> bool" where
  \<comment> \<open>the transposed filter bank has shape \<open>(n_fft // 2 + 1, n_mels)\<close>\<close>
  "wf_mel E =
     (length (MEL_FILTER_BANK_MATRIX E) = NFFT E div 2 + 1
      \<and> list_all (\<lambda>r. length r = mel_bins E) (MEL_FILTER_BANK_MATRIX E))"

definition stft_frame_count :: "env \<Rightarrow> nat \<Rightarrow> nat" where
  \<comment> \<open>the frames librosa cuts from \<open>n\<close> samples padded by \<open>n_fft // 2\<close> on both sides\<close>
  "stft_frame_count E n = 1 + (n + 2 * (NFFT E div 2) - NFFT E) div hop_size E"

definition ceil_div :: "nat \<Rightarrow> nat \<Rightarrow> nat" where
  \<comment> \<open>\<open>ceil(n / h)\<close> for a positive \<open>h\<close>\<close>
  "ceil_div n h = (n + h - 1) div h"

definition stft_frames_zero_padded :: "nat \<Rightarrow> nat \<Rightarrow> real list \<Rightarrow> real list list" where
  \<comment> \<open>for comparison only: the frames a signal padded with zeros on both sides would give\<close>
  "stft_frames_zero_padded n_fft hop_length y =
     (let y_padded = replicate (n_fft div 2) 0 @ y @ replicate (n_fft div 2) 0
      in map (\<lambda>t. take n_fft (drop (t * hop_length) y_padded))
             [0..<1 + (length y_padded - n_fft) div hop_length])"

section \<open>Statistics as the specification words them\<close>

text \<open>
  Two notions of the specification that the source does not compute, kept for comparison
  with \<open>calculate_scalar_of_tensor\<close>: statistics that keep the channel axis, and a
  streaming accumulation of a sum, a sum of squares and a count per mel bin, merged over
  the files.
\<close>

fun stats_per_channel :: "real ndarray \<Rightarrow> real npval ndarray \<times> real npval ndarray" where
  \<comment> \<open>mean and deviation over the frames only, one row per channel\<close>
  "stats_per_channel (Arr3 t m chans) =
     (Arr2 m (map (\<lambda>ch. map (\<lambda>j. np_mean (map (\<lambda>fr. fr ! j) ch)) [0..<m]) chans),
      Arr2 m (map (\<lambda>ch. map (\<lambda>j. np_std (map (\<lambda>fr. fr ! j) ch)) [0..<m]) chans))"
| "stats_per_channel a = (Arr1 [], Arr1 [])"






fun is_feature :: "nat \<Rightarrow> nat \<Rightarrow> 'a ndarray \<Rightarrow> bool" where
  \<comment> \<open>a 3-D array with \<open>c\<close> channels and \<open>m\<close> bins\<close>
  "is_feature c m (Arr3 t m' chans) = (m' = m \<and> length chans = c \<and> wf_array (Arr3 t m' chans))"
| "is_feature c m a = False"

fun chans_of :: "'a ndarray \<Rightarrow> 'a list list list" where
  "chans_of (Arr3 t m chans) = chans"
| "chans_of a = []"

definition corpus_mset :: "'a ndarray list \<Rightarrow> nat \<Rightarrow> 'a multiset" where
  \<comment> \<open>the entries of bin \<open>j\<close> over all files, channels and frames\<close>
  "corpus_mset fs j = (\<Sum>a\<leftarrow>fs. mset (bin_values (chans_of a) j))"


section \<open>The cache of a batch\<close>

definition file_feature :: "env \<Rightarrow> audio_store \<Rightarrow> string \<Rightarrow> string \<Rightarrow> error + feature" where
  \<comment> \<open>lines 91-94: the feature of one file in the mode of the run\<close>
  "file_feature E store preprocess_mode audio_path =
     (if preprocess_mode = ''logMel''
      then map_sum id LogMel (extract_logmel E store audio_path)
      else map_sum id Spectrogram (extract_stft E store audio_path))"

fun processable :: "env \<Rightarrow> audio_store \<Rightarrow> string \<Rightarrow> item \<Rightarrow> bool" where
  "processable E store preprocess_mode (audio_path, start_times, end_times, audio_name) =
     (case file_feature E store preprocess_mode audio_path of Inl e \<Rightarrow> False | Inr f \<Rightarrow> True)"

fun cache_entries ::
  "env \<Rightarrow> audio_store \<Rightarrow> string \<Rightarrow> string \<Rightarrow> item list \<Rightarrow> (string \<times> pydict) list" where
  \<comment> \<open>the records of the files of a batch, in order, up to the first file that fails\<close>
  "cache_entries E store output_dir preprocess_mode [] = []"
| "cache_entries E store output_dir preprocess_mode
     ((audio_path, start_times, end_times, audio_name) # rest) =
     (case file_feature E store preprocess_mode audio_path of
        Inl e \<Rightarrow> []
      | Inr f \<Rightarrow>
          (cache_path output_dir audio_name preprocess_mode, cache_record f start_times end_times)
            # cache_entries E store output_dir preprocess_mode rest)"


definition empty_fs :: filesystem where
  "empty_fs = \<lparr>files = Map.empty, dirs = {}\<rparr>"

subsection \<open>A small configuration and store for concrete runs\<close>

text \<open>
  Small constants (an FFT of 4 samples, a hop of 2, two mel bins, two channels) and three
  decoded files with samples between -1 and 1, for the runs on concrete inputs below.
\<close>

definition nearest_resample :: "nat \<Rightarrow> nat \<Rightarrow> real list \<Rightarrow> error + real list" where
  \<comment> \<open>a stand-in resampler for concrete runs: nearest sample, \<open>ceil(n * target / orig)\<close> samples\<close>
  "nearest_resample orig_sr target_sr y =
     (if orig_sr = 0 \<or> target_sr = 0 \<or> y = [] then Inl ResampleError
      else Inr (map (\<lambda>j. y ! (j * orig_sr div target_sr))
                    [0..<(length y * target_sr + orig_sr - 1) div orig_sr]))"

definition small_env :: env where
  "small_env =
     \<lparr>working_sample_rate = 4, NFFT = 4, frame_size = 4, hop_size = 2, mel_bins = 2,
      audio_channels = 2,
      MEL_FILTER_BANK_MATRIX = [[1, 0], [1/2, 1/2], [0, 1]],
      librosa_resample = nearest_resample,
      create_event_matrix = (\<lambda>frames start_times end_times. Inr (replicate frames [0])),
      plot_debug_image = (\<lambda>feature target plot_path file_name. Inr ())\<rparr>"

definition small_store :: audio_store where
  "small_store =
     (\<lambda>p. if p = ''mono.wav'' then Some (Mono [1/8, 1/4, 3/8, 1/2], 4)
          else if p = ''stereo.wav'' then Some (Multi 2 [[1/8, 3/8], [1/4, 1/2], [0, 1/4], [1/2, 0]], 4)
          else if p = ''quad.wav'' then Some (Multi 4 [[1/8, 1/4, 3/8, 1/2], [5/8, 3/4, 7/8, - 1/2]], 2)
          else None)"

section \<open>Properties of the audio loader\<close>


lemma channel_stage_shape:
  assumes "wf_sf sf"
  shows "\<exists>rows. channel_stage n sf = Arr2 n rows \<and> list_all (\<lambda>r. length r = n) rows
           \<and> length rows = length (snd (as_2d sf))"
proof (cases sf)
  case (Mono xs)
  then show ?thesis
    by (auto simp: channel_stage_def np_repeat_axis1_def reshape_column_def mean_axis1_def
        list_all_iff)
next
  case (Multi c rows)
  with assms have len: "\<And>r. r \<in> set rows \<Longrightarrow> length r = c"
    by (simp add: list_all_iff)
  show ?thesis
    using Multi len
    by (auto simp: channel_stage_def np_repeat_axis1_def reshape_column_def mean_axis1_def
        list_all_iff)
qed





lemma read_multichannel_audio_no_resample:
  assumes "store audio_path = Some (sf, sample_rate)"
    and "target_fs = None \<or> target_fs = Some sample_rate"
  shows "read_multichannel_audio E store audio_path target_fs
           = Inr (channel_stage (audio_channels E) sf)"
  using assms by (auto simp: read_multichannel_audio_def soundfile_read_def)

section \<open>Properties of the STFT engine\<close>

lemma reflect_index_less: "1 \<le> n \<Longrightarrow> reflect_index n i < n"
proof (cases "n \<le> 1")
  case True
  assume "1 \<le> n"
  with True show ?thesis by (simp add: reflect_index_def)
next
  case False
  then have P: "0 < 2 * (int n - 1)" by simp
  have "0 \<le> i mod (2 * (int n - 1))" "i mod (2 * (int n - 1)) < 2 * (int n - 1)"
    using P by (rule pos_mod_sign, rule pos_mod_bound)
  with False show ?thesis
    unfolding reflect_index_def Let_def by (simp split: if_splits) linarith
qed

lemma np_pad_reflect_length:
  "y \<noteq> [] \<Longrightarrow> \<exists>yp. np_pad_reflect p y = Inr yp \<and> length yp = length y + 2 * p"
  by (simp add: np_pad_reflect_def)

lemma stft_frames_ok:
  assumes "0 < hop" "1 \<le> n_fft" "y \<noteq> []"
  shows "\<exists>fs. stft_frames n_fft hop y = Inr fs
           \<and> length fs = 1 + (length y + 2 * (n_fft div 2) - n_fft) div hop
           \<and> list_all (\<lambda>f. length f = n_fft) fs"
proof -
  obtain yp where yp: "np_pad_reflect (n_fft div 2) y = Inr yp"
    and len: "length yp = length y + 2 * (n_fft div 2)"
    using np_pad_reflect_length [OF assms(3)] by blast
  from assms(3) have "1 \<le> length y" by (cases y) simp_all
  then have ge: "n_fft \<le> length yp" using len by presburger
  have fr: "length (take n_fft (drop (t * hop) yp)) = n_fft"
    if "t < 1 + (length yp - n_fft) div hop" for t
  proof -
    from that have "t \<le> (length yp - n_fft) div hop" by simp
    then have "t * hop \<le> (length yp - n_fft) div hop * hop" by simp
    also have "\<dots> \<le> length yp - n_fft" by simp
    finally show ?thesis using ge by simp
  qed
  show ?thesis
    using assms(1,2) yp ge fr len
    by (simp add: stft_frames_def list_all_iff)
qed

lemma np_hanning_length: "length (np_hanning M) = M"
  by (simp add: np_hanning_def)

lemma rfft_length: "length (rfft x) = length x div 2 + 1"
  by (simp add: rfft_def)

lemma librosa_stft_ok:
  assumes "0 < hop" "1 \<le> n_fft" "y \<noteq> []" "win \<le> n_fft" "length window = win"
  shows "\<exists>S. librosa_stft y n_fft win hop window = Inr S
           \<and> length S = 1 + (length y + 2 * (n_fft div 2) - n_fft) div hop
           \<and> list_all (\<lambda>fr. length fr = n_fft div 2 + 1) S"
proof -
  obtain fs where fs: "stft_frames n_fft hop y = Inr fs"
    and len: "length fs = 1 + (length y + 2 * (n_fft div 2) - n_fft) div hop"
    and each: "list_all (\<lambda>f. length f = n_fft) fs"
    using stft_frames_ok [OF assms(1-3)] by blast
  obtain w where w: "pad_center window n_fft = Inr w" and lw: "length w = n_fft"
    using assms(4,5) by (auto simp: pad_center_def Let_def)
  show ?thesis
    using assms(1,5) fs len each w lw
    by (simp add: librosa_stft_def list_all_iff rfft_length)
qed

lemma sequence_sum_map_Inr:
  assumes "\<And>x. x \<in> set xs \<Longrightarrow> \<exists>y. f x = Inr y"
  shows "sequence_sum (map f xs) = Inr (map (\<lambda>x. projr (f x)) xs)"
  using assms
proof (induction xs)
  case Nil
  then show ?case by simp
next
  case (Cons a xs)
  then obtain y where "f a = Inr y" by auto
  with Cons show ?case by simp
qed

lemma multichannel_stft_ok:
  assumes "valid_stft_config E" "1 \<le> c" "rows \<noteq> []"
  shows "\<exists>chans. multichannel_stft E (Arr2 c rows)
            = Inr (Arr3 (stft_frame_count E (length rows)) (NFFT E div 2 + 1) chans)
          \<and> length chans = c
          \<and> wf_array (Arr3 (stft_frame_count E (length rows)) (NFFT E div 2 + 1) chans)"
proof -
  let ?f = "\<lambda>i. librosa_stft (column rows i) (NFFT E) (frame_size E) (hop_size E)
                   (np_hanning (frame_size E))"
  let ?T = "stft_frame_count E (length rows)"
  have ok: "\<exists>S. ?f i = Inr S \<and> length S = ?T
              \<and> list_all (\<lambda>fr. length fr = NFFT E div 2 + 1) S" for i
  proof -
    from assms(3) have ne: "column rows i \<noteq> []" by (simp add: column_def)
    have "length (column rows i) = length rows" by (simp add: column_def)
    with librosa_stft_ok [OF _ _ ne, of "hop_size E" "NFFT E" "frame_size E" "np_hanning (frame_size E)"]
      assms(1)
    show ?thesis by (simp add: valid_stft_config_def np_hanning_length stft_frame_count_def)
  qed
  define chans where "chans = map (\<lambda>i. projr (?f i)) [0..<c]"
  have seq: "sequence_sum (map ?f [0..<c]) = Inr chans"
    unfolding chans_def by (rule sequence_sum_map_Inr) (use ok in blast)
  have each: "length S = ?T \<and> list_all (\<lambda>fr. length fr = NFFT E div 2 + 1) S"
    if "S \<in> set chans" for S
  proof -
    from that obtain i where "S = projr (?f i)" by (auto simp: chans_def)
    with ok [of i] show ?thesis by auto
  qed
  have lc: "length chans = c" by (simp add: chans_def)
  with assms(2) obtain x xs where cx: "chans = x # xs" by (cases chans) auto
  have "np_array3 (NFFT E div 2 + 1) chans = Inr (Arr3 ?T (NFFT E div 2 + 1) chans)"
    using each cx by (auto simp: np_array3_def list_all_iff)
  with seq lc each show ?thesis
    by (auto simp: multichannel_stft_def list_all_iff)
qed

lemma frame_count_even:
  "even (NFFT E) \<Longrightarrow> stft_frame_count E n = n div hop_size E + 1"
  by (auto simp: stft_frame_count_def elim: evenE)

lemma frame_count_odd:
  assumes "odd (NFFT E)" "0 < hop_size E" "1 \<le> n"
  shows "stft_frame_count E n = ceil_div n (hop_size E)"
proof -
  from assms(1) obtain k where k: "NFFT E = 2 * k + 1" by (auto elim: oddE)
  then have "n + 2 * (NFFT E div 2) - NFFT E = n - 1" by simp
  moreover have "(n - 1 + hop_size E) div hop_size E = (n - 1) div hop_size E + 1"
    using assms(2) by simp
  moreover have "n + hop_size E - 1 = n - 1 + hop_size E" using assms(3) by simp
  ultimately show ?thesis by (simp add: stft_frame_count_def ceil_div_def)
qed

lemma div_add_small:
  fixes h q r :: nat
  assumes "r < h"
  shows "(q * h + r) div h = q"
  using assms by simp

lemma ceil_div_not_dvd:
  assumes "0 < h" "\<not> h dvd n"
  shows "ceil_div n h = n div h + 1"
proof -
  define q where "q = n div h"
  define r where "r = n mod h"
  have n: "n = q * h + r" by (simp add: q_def r_def)
  from assms have r: "0 < r" "r < h" by (simp_all add: r_def dvd_eq_mod_eq_0)
  then have "n + h - 1 = (q + 1) * h + (r - 1)" by (simp add: n algebra_simps)
  moreover have "r - 1 < h" using r by simp
  ultimately have "(n + h - 1) div h = q + 1" using div_add_small by presburger
  then show ?thesis by (simp add: ceil_div_def q_def)
qed

lemma ceil_div_dvd:
  assumes "0 < h" "h dvd n"
  shows "ceil_div n h = n div h"
proof -
  from assms(2) obtain q where "n = h * q" by (rule dvdE)
  then have q: "n = q * h" by (simp only: mult.commute)
  have "q * h + h - 1 = q * h + (h - 1)" using assms(1) by simp
  moreover have "h - 1 < h" using assms(1) by simp
  ultimately have "(n + h - 1) div h = q" using div_add_small q by presburger
  with q assms(1) show ?thesis by (simp add: ceil_div_def)
qed

lemma np_pad_reflect_samples:
  assumes "np_pad_reflect p y = Inr yp"
  shows "set yp \<subseteq> set y"
proof (cases "y = []")
  case True
  with assms show ?thesis by (auto simp: np_pad_reflect_def split: if_splits)
next
  case False
  then have "1 \<le> length y" by (cases y) simp_all
  then have "reflect_index (length y) i < length y" for i by (rule reflect_index_less)
  then have "y ! reflect_index (length y) i \<in> set y" for i by simp
  with assms show ?thesis by (auto simp: np_pad_reflect_def split: if_splits)
qed

lemma stft_frames_samples:
  assumes "stft_frames n_fft hop y = Inr frames" "fr \<in> set frames"
  shows "set fr \<subseteq> set y"
proof -
  from assms(1) obtain yp where yp: "np_pad_reflect (n_fft div 2) y = Inr yp"
    and fs: "frames = map (\<lambda>t. take n_fft (drop (t * hop) yp))
                         [0..<1 + (length yp - n_fft) div hop]"
    by (auto simp: stft_frames_def split: if_splits sum.splits)
  from assms(2) fs obtain t where "fr = take n_fft (drop (t * hop) yp)" by auto
  then have "set fr \<subseteq> set yp"
    by (metis set_take_subset set_drop_subset subset_trans)
  with np_pad_reflect_samples [OF yp] show ?thesis by blast
qed

lemma small_env_valid: "valid_stft_config small_env" "wf_mel small_env"
  by (simp_all add: valid_stft_config_def wf_mel_def small_env_def)

section \<open>Properties of the log-mel projector\<close>

lemma amin_pos: "0 < amin" "amin \<le> 1"
  by (simp_all add: amin_def)

lemma log10_amin: "log 10 amin = - 10"
proof -
  have "log 10 (1 / 10 ^ 10) = - log 10 ((10::real) ^ 10)" by (rule log_recip)
  also have "log 10 ((10::real) ^ 10) = 10" by (simp add: log_nat_power del: power_numeral)
  finally show ?thesis by (simp only: amin_def)
qed


lemma power_to_db_elem:
  "10 * log 10 (max amin s) - 10 * log 10 (max amin 1)
     = (if s \<le> amin then - 100 else 10 * log 10 s)"
proof -
  have one: "max amin 1 = 1" using amin_pos by (simp add: max_def)
  show ?thesis
  proof (cases "s \<le> amin")
    case True
    then have "max amin s = amin" by (simp add: max_def)
    with True one log10_amin show ?thesis by simp
  next
    case False
    then have "max amin s = s" by (simp add: max_def)
    with False one show ?thesis by simp
  qed
qed

lemma power_to_db_values:
  "power_to_db S 1 amin
     = Inr (map_ndarray (\<lambda>s. if s \<le> amin then - 100 else 10 * log 10 s) S)"
  using amin_pos(1) by (simp add: power_to_db_def power_to_db_elem)


lemma log_mel_ok:
  assumes "wf_mel E"
  shows "multichannel_complex_to_log_mel E (Arr3 t (NFFT E div 2 + 1) chans)
     = Inr (Arr3 t (mel_bins E)
         (map (map (\<lambda>fr. map (\<lambda>s. if s \<le> amin then - 100 else 10 * log 10 s)
                          (vec_mat (map (\<lambda>z. (cmod z)\<^sup>2) fr) (MEL_FILTER_BANK_MATRIX E)
                             (mel_bins E))))
              chans))"
  using assms
  by (simp add: multichannel_complex_to_log_mel_def power_to_db_values wf_mel_def comp_def)


lemma bin_values_append2:
  "length x = length y \<Longrightarrow>
     mset (bin_values (map2 (@) x y) j) = mset (bin_values x j) + mset (bin_values y j)"
  by (induction x y rule: list_induct2) (simp_all add: bin_values_def)

lemma concat2_axis1_feature:
  assumes "is_feature c m a" "is_feature c m b"
  shows "\<exists>r. concat2_axis1 a b = Inr r \<and> is_feature c m r
           \<and> (\<forall>j. mset (bin_values (chans_of r) j)
                    = mset (bin_values (chans_of a) j) + mset (bin_values (chans_of b) j))"
proof -
  from assms(1) obtain t x where a: "a = Arr3 t m x" by (cases a) auto
  from assms(2) obtain t' y where b: "b = Arr3 t' m y" by (cases b) auto
  from assms a b have len: "length x = length y" "length x = c" by auto
  have wf: "wf_array (Arr3 (t + t') m (map2 (@) x y))"
    using assms a b len by (auto simp: list_all_iff set_zip)
  show ?thesis
    using a b len wf bin_values_append2 [OF len(1)] by simp
qed

lemma np_concatenate_axis1_feature:
  assumes "fs \<noteq> []" "list_all (is_feature c m) fs"
  shows "\<exists>r. np_concatenate_axis1 fs = Inr r \<and> is_feature c m r
           \<and> (\<forall>j. mset (bin_values (chans_of r) j) = corpus_mset fs j)"
  using assms
proof (induction fs rule: np_concatenate_axis1.induct)
  case 1
  then show ?case by simp
next
  case (2 a)
  then show ?case by (cases a) (simp_all add: corpus_mset_def)
next
  case (3 a b rest)
  then obtain r where r: "np_concatenate_axis1 (b # rest) = Inr r" "is_feature c m r"
    and rm: "\<And>j. mset (bin_values (chans_of r) j) = corpus_mset (b # rest) j"
    by auto
  from 3 have "is_feature c m a" by simp
  from concat2_axis1_feature [OF this r(2)] obtain r' where
    r': "concat2_axis1 a r = Inr r'" "is_feature c m r'"
    and rm': "\<And>j. mset (bin_values (chans_of r') j)
                    = mset (bin_values (chans_of a) j) + mset (bin_values (chans_of r) j)"
    by blast
  have "mset (bin_values (chans_of r') j) = corpus_mset (a # b # rest) j" for j
    using rm' [of j] rm [of j] by (simp add: corpus_mset_def)
  with r r' show ?case by simp
qed



lemma np_mean_acc:
  fixes xs :: "real list"
  shows "np_mean xs = (if length xs = 0 then NaN else Num (sum_list xs / real (length xs)))"
  by (simp add: np_mean_def)










lemma bin_values_sum:
  fixes chans :: "real list list list"
  shows "sum_list (bin_values chans j) = (\<Sum>ch\<leftarrow>chans. \<Sum>fr\<leftarrow>ch. fr ! j)"
  by (induction chans) (simp_all add: bin_values_def comp_def)

lemma bin_values_length:
  assumes "wf_array (Arr3 t m chans)"
  shows "length (bin_values chans j) = length chans * t"
proof -
  from assms have "\<And>ch. ch \<in> set chans \<Longrightarrow> length ch = t" by (simp add: list_all_iff)
  then have "map (\<lambda>ch. length (map (\<lambda>fr. fr ! j) ch)) chans = replicate (length chans) t"
    by (simp add: map_replicate_const [symmetric] cong: map_cong)
  then show ?thesis
    by (simp add: bin_values_def length_concat comp_def sum_list_replicate)
qed

lemma np_stats_small:
  "np_mean [0, 2 :: real] = Num 1" "np_std [0, 2 :: real] = Num 1"
  "np_mean [0 :: real] = Num 0" "np_std [0 :: real] = Num 0"
  "np_mean [2 :: real] = Num 2" "np_std [2 :: real] = Num 0"
  by (simp_all add: np_mean_def np_std_def)


lemma process_files_snd:
  assumes "\<And>p. map_sum id wrap (extract p) = file_feature E store mode p"
  shows "snd (process_files extract wrap out mode items acc fs)
           = fs\<lparr>files := files fs ++ map_of (rev (cache_entries E store out mode items))\<rparr>"
proof (induction items arbitrary: acc fs)
  case Nil
  then show ?case by simp
next
  case (Cons it items)
  obtain p s e n where it: "it = (p, s, e, n)" by (cases it) auto
  show ?case
  proof (cases "extract p")
    case (Inl err)
    with assms [of p] have "file_feature E store mode p = Inl err" by simp
    with Inl it show ?thesis by simp
  next
    case (Inr f)
    with assms [of p] have ff: "file_feature E store mode p = Inr (wrap f)" by simp
    let ?k = "cache_path out n mode" and ?d = "cache_record (wrap f) s e"
    let ?R = "map_of (rev (cache_entries E store out mode items))"
    let ?fs' = "pickle_dump ?k ?d fs"
    have step: "process_files extract wrap out mode (it # items) acc fs
                  = process_files extract wrap out mode items (acc @ [f]) ?fs'"
      by (simp add: it Inr)
    have IH: "snd (process_files extract wrap out mode items (acc @ [f]) ?fs')
                = ?fs'\<lparr>files := files ?fs' ++ ?R\<rparr>"
      by (rule Cons.IH)
    have eq1: "files ?fs' ++ ?R = files fs ++ ([?k \<mapsto> ?d] ++ ?R)"
    proof -
      have "files ?fs' = files fs ++ [?k \<mapsto> ?d]" by (simp add: pickle_dump_def)
      then show ?thesis by (simp only: map_add_assoc)
    qed
    have eq2: "?fs'\<lparr>files := X\<rparr> = fs\<lparr>files := X\<rparr>" for X
      by (simp add: pickle_dump_def)
    have entries: "map_of (rev (cache_entries E store out mode (it # items))) = [?k \<mapsto> ?d] ++ ?R"
      by (simp add: it ff)
    show ?thesis by (simp only: step IH eq2 eq1 entries)
  qed
qed

lemma process_files_fst_fail:
  assumes "\<And>p. map_sum id wrap (extract p) = file_feature E store mode p"
    and "list_all (processable E store mode) pre"
    and "file_feature E store mode p_bad = Inl err"
  shows "fst (process_files extract wrap out mode (pre @ (p_bad, s, e, n) # post) acc fs) = Inl err"
  using assms(2)
proof (induction pre arbitrary: acc fs)
  case Nil
  from assms(1) [of p_bad] assms(3) have "extract p_bad = Inl err"
    by (cases "extract p_bad") simp_all
  then show ?case by simp
next
  case (Cons it pre)
  obtain p' s' e' n' where it: "it = (p', s', e', n')" by (cases it) auto
  with Cons.prems obtain f where "file_feature E store mode p' = Inr f"
    by (auto split: sum.splits)
  with assms(1) [of p'] obtain g where "extract p' = Inr g"
    by (cases "extract p'") simp_all
  with Cons it show ?case by simp
qed

lemma cache_entries_fail:
  assumes "list_all (processable E store mode) pre"
    and "file_feature E store mode p_bad = Inl err"
  shows "cache_entries E store out mode (pre @ (p_bad, s, e, n) # post)
           = cache_entries E store out mode pre"
  using assms(1)
proof (induction pre)
  case Nil
  with assms(2) show ?case by simp
next
  case (Cons it pre)
  obtain p' s' e' n' where it: "it = (p', s', e', n')" by (cases it) auto
  with Cons show ?case by (auto split: sum.splits)
qed

lemma run_pipeline_fail:
  assumes "\<And>p. map_sum id wrap (extract p) = file_feature E store mode p"
    and "list_all (processable E store mode) pre"
    and "file_feature E store mode p_bad = Inl err"
  shows "run_pipeline E store rnd extract wrap wrap_mean (pre @ (p_bad, s, e, n) # post)
           out stats mode fs
         = (Inl err, fs\<lparr>files := files fs ++ map_of (rev (cache_entries E store out mode pre))\<rparr>)"
proof -
  let ?r = "process_files extract wrap out mode (pre @ (p_bad, s, e, n) # post) [] fs"
  have f: "fst ?r = Inl err" by (rule process_files_fst_fail [OF assms])
  have "snd ?r = fs\<lparr>files := files fs ++ map_of (rev (cache_entries E store out mode
                          (pre @ (p_bad, s, e, n) # post)))\<rparr>"
    by (rule process_files_snd [OF assms(1)])
  then have sn: "snd ?r = fs\<lparr>files := files fs ++ map_of (rev (cache_entries E store out mode pre))\<rparr>"
    by (simp only: cache_entries_fail [OF assms(2,3)])
  from f sn have "?r = (Inl err, fs\<lparr>files := files fs
                           ++ map_of (rev (cache_entries E store out mode pre))\<rparr>)"
    by (metis prod.collapse)
  then show ?thesis by (simp add: run_pipeline_def)
qed

lemma preprocess_data_fail:
  assumes "list_all (processable E store mode) pre"
    and "file_feature E store mode p_bad = Inl err"
  shows "preprocess_data E store rnd (pre @ (p_bad, s, e, n) # post) out stats mode fs
         = (Inl err, (os_makedirs out fs)
                       \<lparr>files := files fs ++ map_of (rev (cache_entries E store out mode pre))\<rparr>)"
proof (cases "mode = ''logMel''")
  case True
  have "map_sum id LogMel (extract_logmel E store p) = file_feature E store mode p" for p
    using True by (simp add: file_feature_def)
  from run_pipeline_fail [OF this assms] True show ?thesis
    by (simp add: preprocess_data_def os_makedirs_def)
next
  case False
  have "map_sum id Spectrogram (extract_stft E store p) = file_feature E store mode p" for p
    using False by (simp add: file_feature_def)
  from run_pipeline_fail [OF this assms] False show ?thesis
    by (simp add: preprocess_data_def os_makedirs_def)
qed



lemma extract_stft_ok:
  assumes "store p = Some (sf, working_sample_rate E)" "wf_sf sf" "1 \<le> audio_channels E"
    and "valid_stft_config E" "snd (as_2d sf) \<noteq> []"
  shows "\<exists>chans. extract_stft E store p
            = Inr (Arr3 (stft_frame_count E (length (snd (as_2d sf)))) (NFFT E div 2 + 1) chans)
          \<and> length chans = audio_channels E
          \<and> wf_array (Arr3 (stft_frame_count E (length (snd (as_2d sf)))) (NFFT E div 2 + 1) chans)"
proof -
  have rd: "read_multichannel_audio E store p (Some (working_sample_rate E))
              = Inr (channel_stage (audio_channels E) sf)"
    by (rule read_multichannel_audio_no_resample [where store = store and audio_path = p,
          OF assms(1)]) simp
  obtain rows where cs: "channel_stage (audio_channels E) sf = Arr2 (audio_channels E) rows"
    and len: "length rows = length (snd (as_2d sf))"
    using channel_stage_shape [OF assms(2)] by blast
  from len assms(5) have ne: "rows \<noteq> []" by auto
  from multichannel_stft_ok [OF assms(4,3) ne] rd cs len show ?thesis
    by (simp add: extract_stft_def)
qed

lemma extract_logmel_ok:
  assumes "store p = Some (sf, working_sample_rate E)" "wf_sf sf" "1 \<le> audio_channels E"
    and "valid_stft_config E" "snd (as_2d sf) \<noteq> []" "wf_mel E"
  shows "\<exists>feats. extract_logmel E store p
            = Inr (Arr3 (stft_frame_count E (length (snd (as_2d sf)))) (mel_bins E) feats)
          \<and> is_feature (audio_channels E) (mel_bins E)
               (Arr3 (stft_frame_count E (length (snd (as_2d sf)))) (mel_bins E) feats)"
proof -
  let ?T = "stft_frame_count E (length (snd (as_2d sf)))"
  obtain chans where st: "extract_stft E store p = Inr (Arr3 ?T (NFFT E div 2 + 1) chans)"
    and lc: "length chans = audio_channels E"
    and wf: "wf_array (Arr3 ?T (NFFT E div 2 + 1) chans)"
    using extract_stft_ok [where store = store and p = p, OF assms(1-5)] by blast
  define feats where "feats =
     map (map (\<lambda>fr. map (\<lambda>s. if s \<le> amin then - 100 else 10 * log 10 s)
                          (vec_mat (map (\<lambda>z. (cmod z)\<^sup>2) fr) (MEL_FILTER_BANK_MATRIX E)
                             (mel_bins E)))) chans"
  have lm: "multichannel_complex_to_log_mel E (Arr3 ?T (NFFT E div 2 + 1) chans)
              = Inr (Arr3 ?T (mel_bins E) feats)"
    unfolding feats_def by (rule log_mel_ok [OF assms(6)])
  have "wf_array (Arr3 ?T (mel_bins E) feats)"
    using wf by (auto simp: feats_def list_all_iff vec_mat_def)
  with st lm lc show ?thesis by (simp add: extract_logmel_def feats_def)
qed

lemma small_stereo:
  "\<exists>chans. extract_stft small_env small_store ''stereo.wav'' = Inr (Arr3 3 3 chans)
            \<and> length chans = 2"
  "\<exists>feats. extract_logmel small_env small_store ''stereo.wav'' = Inr (Arr3 3 2 feats)
            \<and> is_feature 2 2 (Arr3 3 2 feats)"
proof -
  have st: "small_store ''stereo.wav''
              = Some (Multi 2 [[1/8, 3/8], [1/4, 1/2], [0, 1/4], [1/2, 0]], working_sample_rate small_env)"
    by (simp add: small_store_def small_env_def)
  have wf: "wf_sf (Multi 2 [[1/8, 3/8], [1/4, 1/2], [0, 1/4], [1/2, 0]])" by simp
  have ch: "1 \<le> audio_channels small_env" by (simp add: small_env_def)
  have ne: "snd (as_2d (Multi 2 [[1/8, 3/8], [1/4, 1/2], [0, 1/4], [1/2, 0]])) \<noteq> []" by simp
  have T: "stft_frame_count small_env
             (length (snd (as_2d (Multi 2 [[1/8, 3/8], [1/4, 1/2], [0, 1/4], [1/2, 0]])))) = 3"
    by (simp add: stft_frame_count_def small_env_def)
  have F: "NFFT small_env div 2 + 1 = 3" "mel_bins small_env = 2" "audio_channels small_env = 2"
    by (simp_all add: small_env_def)
  from extract_stft_ok [where store = small_store and p = "''stereo.wav''",
         OF st wf ch small_env_valid(1) ne]
  show "\<exists>chans. extract_stft small_env small_store ''stereo.wav'' = Inr (Arr3 3 3 chans)
            \<and> length chans = 2"
    unfolding T F by blast
  from extract_logmel_ok [where store = small_store and p = "''stereo.wav''",
         OF st wf ch small_env_valid(1) ne small_env_valid(2)]
  show "\<exists>feats. extract_logmel small_env small_store ''stereo.wav'' = Inr (Arr3 3 2 feats)
            \<and> is_feature 2 2 (Arr3 3 2 feats)"
    unfolding T F by blast
qed

lemma process_files_fst_ok:
  assumes "\<And>it. it \<in> set items \<Longrightarrow> \<exists>f. extract (fst it) = Inr f"
  shows "fst (process_files extract wrap out mode items acc fs)
           = Inr (acc @ map (\<lambda>it. projr (extract (fst it))) items)"
  using assms
proof (induction items arbitrary: acc fs)
  case Nil
  then show ?case by simp
next
  case (Cons it items)
  obtain p s e n where it: "it = (p, s, e, n)" by (cases it) auto
  with Cons.prems [of it] obtain f where f: "extract p = Inr f" by auto
  have "fst (process_files extract wrap out mode items (acc @ [f])
               (pickle_dump (cache_path out n mode) (cache_record (wrap f) s e) fs))
          = Inr ((acc @ [f]) @ map (\<lambda>it. projr (extract (fst it))) items)"
  proof (rule Cons.IH)
    fix it' assume "it' \<in> set items"
    then show "\<exists>f. extract (fst it') = Inr f" using Cons.prems by simp
  qed
  with it f show ?case by simp
qed

lemma run_pipeline_stats:
  fixes ext :: "string \<Rightarrow> error + 'a::real_normed_field ndarray"
  assumes "items \<noteq> []"
    and "\<And>it. it \<in> set items \<Longrightarrow> \<exists>f. ext (fst it) = Inr f \<and> is_feature c m f"
  shows "\<exists>all mean std.
           np_concatenate_axis1 (map (\<lambda>it. projr (ext (fst it))) items) = Inr all
         \<and> calculate_scalar_of_tensor all = Inr (mean, std)
         \<and> files (snd (run_pipeline E store rnd ext wrap wrap_mean items out stats mode fs))
              stats
             = Some [(''mean'', wrap_mean mean), (''std'', RealArray std)]"
proof -
  let ?feats = "map (\<lambda>it. projr (ext (fst it))) items"
  let ?r = "process_files ext wrap out mode items [] fs"
  have "fst ?r = Inr ([] @ ?feats)"
    by (rule process_files_fst_ok) (use assms(2) in blast)
  then obtain fs1 where r: "?r = (Inr ?feats, fs1)" by (cases ?r) simp
  have ne: "?feats \<noteq> []" using assms(1) by simp
  have "is_feature c m (projr (ext (fst it)))" if "it \<in> set items" for it
    using assms(2) [OF that] by auto
  then have fe: "list_all (is_feature c m) ?feats" by (simp add: list_all_iff)
  from np_concatenate_axis1_feature [OF ne fe] obtain all where
    cat: "np_concatenate_axis1 ?feats = Inr all" and isf: "is_feature c m all" by blast
  from isf obtain t X where "all = Arr3 t m X" by (cases all) auto
  then obtain mean std where cs: "calculate_scalar_of_tensor all = Inr (mean, std)" by simp
  have "files (snd (run_pipeline E store rnd ext wrap wrap_mean items out stats mode fs))
          stats = Some [(''mean'', wrap_mean mean), (''std'', RealArray std)]"
    using r cat cs
    by (auto simp: run_pipeline_def pickle_dump_def Let_def split: sum.splits prod.splits)
  with cat cs show ?thesis by blast
qed

lemma cache_entries_ok:
  assumes "list_all (processable E store mode) items"
  shows "cache_entries E store out mode items
           = map (\<lambda>(p, s, e, n). (cache_path out n mode,
                     cache_record (projr (file_feature E store mode p)) s e)) items"
  using assms
proof (induction items)
  case Nil
  then show ?case by simp
next
  case (Cons it items)
  obtain p s e n where it: "it = (p, s, e, n)" by (cases it) auto
  with Cons show ?case by (auto split: sum.splits)
qed

lemma cache_entries_keys:
  assumes "list_all (processable E store mode) items"
  shows "map fst (cache_entries E store out mode items)
           = map (\<lambda>(p, s, e, n). cache_path out n mode) items"
  by (simp add: cache_entries_ok [OF assms] comp_def case_prod_beta)

lemma small_stereo_processable:
  "processable small_env small_store ''logMel'' (''stereo.wav'', s, e, n)"
  "processable small_env small_store ''stft'' (''stereo.wav'', s, e, n)"
proof -
  from small_stereo(2) obtain feats where
    "extract_logmel small_env small_store ''stereo.wav'' = Inr (Arr3 3 2 feats)" by blast
  then show "processable small_env small_store ''logMel'' (''stereo.wav'', s, e, n)"
    by (simp add: file_feature_def)
  from small_stereo(1) obtain chans where
    "extract_stft small_env small_store ''stereo.wav'' = Inr (Arr3 3 3 chans)" by blast
  then show "processable small_env small_store ''stft'' (''stereo.wav'', s, e, n)"
    by (simp add: file_feature_def)
qed

lemma small_missing:
  "file_feature small_env small_store mode ''missing.wav'' = Inl SoundFileError"
  by (simp add: file_feature_def extract_logmel_def extract_stft_def
      read_multichannel_audio_def soundfile_read_def small_store_def)








section \<open>The claims\<close>



text \<open>
  C4. When no target rate is given, or the file's sample rate already is the target rate,
  the loader returns the output of the channel stage itself: no resampling code runs, so
  the samples are the same values, not approximations of them.
\<close>

theorem read_multichannel_audio_same_rate_identity:
  assumes "store audio_path = Some (sf, sample_rate)"
    and "target_fs = None \<or> target_fs = Some sample_rate"
  shows "read_multichannel_audio E store audio_path target_fs
           = Inr (channel_stage (audio_channels E) sf)"
  using assms by (auto simp: read_multichannel_audio_def soundfile_read_def)

theorem read_multichannel_audio_same_rate_identity_witness:
  "small_store ''stereo.wav'' = Some (Multi 2 [[1/8, 3/8], [1/4, 1/2], [0, 1/4], [1/2, 0]], 4)
   \<and> (Some 4 = None \<or> Some 4 = Some (4::nat))
   \<and> read_multichannel_audio small_env small_store ''stereo.wav'' (Some 4)
       = Inr (Arr2 2 [[1/8, 3/8], [1/4, 1/2], [0, 1/4], [1/2, 0]])"
proof -
  have st: "small_store ''stereo.wav'' = Some (Multi 2 [[1/8, 3/8], [1/4, 1/2], [0, 1/4], [1/2, 0]], 4)"
    by (simp add: small_store_def)
  have tg: "Some 4 = None \<or> Some 4 = Some (4::nat)" by simp
  from read_multichannel_audio_same_rate_identity
         [of small_store "''stereo.wav''" _ 4 "Some 4" small_env, OF st tg] st
  show ?thesis by (simp add: channel_stage_def small_env_def)
qed


text \<open>
  C2 (as amended). For a signal of \<open>n \<ge> 1\<close> samples per channel and constants librosa
  accepts, \<open>multichannel_stft\<close> returns, for every channel,
  \<open>1 + (n + 2 * (NFFT // 2) - NFFT) // hop_size\<close> frames, and the log-mel feature has the same
  number of frames. For an even \<open>NFFT\<close> this is \<open>n // hop_size + 1\<close>: it is
  \<open>ceil(n / hop_size)\<close> when \<open>hop_size\<close> does not divide \<open>n\<close> and one more than that
  when it does. For an odd \<open>NFFT\<close> it is \<open>ceil(n / hop_size)\<close>.
\<close>

theorem multichannel_stft_frame_count:
  assumes "valid_stft_config E" "wf_mel E" "1 \<le> c" "rows \<noteq> []"
  shows "\<exists>chans feats.
           multichannel_stft E (Arr2 c rows)
             = Inr (Arr3 (stft_frame_count E (length rows)) (NFFT E div 2 + 1) chans)
         \<and> length chans = c
         \<and> list_all (\<lambda>ch. length ch = stft_frame_count E (length rows)) chans
         \<and> multichannel_complex_to_log_mel E
               (Arr3 (stft_frame_count E (length rows)) (NFFT E div 2 + 1) chans)
             = Inr (Arr3 (stft_frame_count E (length rows)) (mel_bins E) feats)
         \<and> length feats = c
         \<and> list_all (\<lambda>ch. length ch = stft_frame_count E (length rows)) feats
         \<and> (even (NFFT E) \<longrightarrow>
               stft_frame_count E (length rows) = length rows div hop_size E + 1)
         \<and> (even (NFFT E) \<and> \<not> hop_size E dvd length rows \<longrightarrow>
               stft_frame_count E (length rows) = ceil_div (length rows) (hop_size E))
         \<and> (even (NFFT E) \<and> hop_size E dvd length rows \<longrightarrow>
               stft_frame_count E (length rows) = ceil_div (length rows) (hop_size E) + 1)
         \<and> (odd (NFFT E) \<longrightarrow>
               stft_frame_count E (length rows) = ceil_div (length rows) (hop_size E))"
proof -
  let ?T = "stft_frame_count E (length rows)"
  from assms(1) have hop: "0 < hop_size E" by (simp add: valid_stft_config_def)
  from assms(4) have n: "1 \<le> length rows" by (cases rows) simp_all
  obtain chans where st: "multichannel_stft E (Arr2 c rows) = Inr (Arr3 ?T (NFFT E div 2 + 1) chans)"
    and lc: "length chans = c" and wf: "wf_array (Arr3 ?T (NFFT E div 2 + 1) chans)"
    using multichannel_stft_ok [OF assms(1,3,4)] by blast
  from wf have each: "list_all (\<lambda>ch. length ch = ?T) chans" by (auto simp: list_all_iff)
  define feats where "feats =
     map (map (\<lambda>fr. map (\<lambda>s. if s \<le> amin then - 100 else 10 * log 10 s)
                          (vec_mat (map (\<lambda>z. (cmod z)\<^sup>2) fr) (MEL_FILTER_BANK_MATRIX E)
                             (mel_bins E)))) chans"
  have lm: "multichannel_complex_to_log_mel E (Arr3 ?T (NFFT E div 2 + 1) chans)
              = Inr (Arr3 ?T (mel_bins E) feats)"
    unfolding feats_def by (rule log_mel_ok [OF assms(2)])
  have lf: "length feats = c" using lc by (simp add: feats_def)
  have ef: "list_all (\<lambda>ch. length ch = ?T) feats"
    using each by (simp add: feats_def list_all_iff)
  have a1: "even (NFFT E) \<longrightarrow> ?T = length rows div hop_size E + 1"
    using frame_count_even by blast
  have a2: "even (NFFT E) \<and> \<not> hop_size E dvd length rows \<longrightarrow>
              ?T = ceil_div (length rows) (hop_size E)"
    using frame_count_even [of E "length rows"] ceil_div_not_dvd [OF hop, of "length rows"]
    by simp
  have a3: "even (NFFT E) \<and> hop_size E dvd length rows \<longrightarrow>
              ?T = ceil_div (length rows) (hop_size E) + 1"
    using frame_count_even [of E "length rows"] ceil_div_dvd [OF hop, of "length rows"]
    by simp
  have a4: "odd (NFFT E) \<longrightarrow> ?T = ceil_div (length rows) (hop_size E)"
    using frame_count_odd [OF _ hop n] by blast
  from st lc each lm lf ef a1 a2 a3 a4 show ?thesis by blast
qed

theorem multichannel_stft_frame_count_witness:
  "valid_stft_config small_env \<and> wf_mel small_env \<and> (1::nat) \<le> 2
   \<and> [[1/8, 3/8], [1/4, 1/2], [0, 1/4 :: real]] \<noteq> []
   \<and> (\<exists>chans feats.
         multichannel_stft small_env (Arr2 2 [[1/8, 3/8], [1/4, 1/2], [0, 1/4]]) = Inr (Arr3 2 3 chans)
       \<and> multichannel_complex_to_log_mel small_env (Arr3 2 3 chans) = Inr (Arr3 2 2 feats)
       \<and> length feats = 2)
   \<and> ceil_div 3 2 = 2"
proof -
  have c: "(1::nat) \<le> 2" by simp
  have r: "[[1/8, 3/8], [1/4, 1/2], [0, 1/4 :: real]] \<noteq> []" by simp
  have T: "stft_frame_count small_env (length [[1/8, 3/8], [1/4, 1/2], [0, 1/4 :: real]]) = 2"
    by (simp add: stft_frame_count_def small_env_def)
  have F: "NFFT small_env div 2 + 1 = 3" "mel_bins small_env = 2"
    by (simp_all add: small_env_def)
  have cd: "ceil_div 3 2 = 2" by (simp add: ceil_div_def)
  from multichannel_stft_frame_count [OF small_env_valid c r]
  obtain chans feats where
    "multichannel_stft small_env (Arr2 2 [[1/8, 3/8], [1/4, 1/2], [0, 1/4]]) = Inr (Arr3 2 3 chans)"
    "multichannel_complex_to_log_mel small_env (Arr3 2 3 chans) = Inr (Arr3 2 2 feats)"
    "length feats = 2"
    unfolding T F by blast
  with small_env_valid c r cd show ?thesis by blast
qed

text \<open>
  Four samples per channel with \<open>NFFT = 4\<close> and \<open>hop_size = 2\<close> give three frames, while
  \<open>ceil(4 / 2) = 2\<close>.
\<close>

theorem multichannel_stft_frame_count_counterexample:
  "map_sum id shape (multichannel_stft small_env (Arr2 2 [[1/8, 3/8], [1/4, 1/2], [0, 1/4], [1/2, 0]]))
     = Inr [2, 3, 3]
   \<and> ceil_div (length [[1/8, 3/8], [1/4, 1/2], [0, 1/4], [1/2, 0 :: real]]) (hop_size small_env) = 2"
proof -
  have T: "stft_frame_count small_env (length [[1/8, 3/8], [1/4, 1/2], [0, 1/4], [1/2, 0 :: real]]) = 3"
    by (simp add: stft_frame_count_def small_env_def)
  have F: "NFFT small_env div 2 + 1 = 3" by (simp add: small_env_def)
  from multichannel_stft_ok [OF small_env_valid(1), of 2 "[[1/8, 3/8], [1/4, 1/2], [0, 1/4], [1/2, 0]]"]
  obtain chans where
    "multichannel_stft small_env (Arr2 2 [[1/8, 3/8], [1/4, 1/2], [0, 1/4], [1/2, 0]]) = Inr (Arr3 3 3 chans)"
    "length chans = 2"
    unfolding T F by auto
  then show ?thesis by (simp add: ceil_div_def small_env_def)
qed




text \<open>
  C8 (as amended). For every signal with at least one sample per channel, also one shorter
  than \<open>frame_size\<close>, and constants librosa accepts, \<open>multichannel_stft\<close> returns an array
  with at least one frame per channel. The frames are cut from the signal extended by
  reflection (\<^verbatim>\<open>pad_mode='reflect'\<close>), so every entry of a frame is a sample of the signal:
  the frames are not padded with zeros. Zeros only extend the window, from \<open>frame_size\<close>
  to \<open>NFFT\<close> entries.
\<close>

theorem multichannel_stft_short_signal:
  assumes "valid_stft_config E" "1 \<le> c" "rows \<noteq> []"
  shows "\<exists>chans.
           multichannel_stft E (Arr2 c rows)
             = Inr (Arr3 (stft_frame_count E (length rows)) (NFFT E div 2 + 1) chans)
         \<and> length chans = c
         \<and> 1 \<le> stft_frame_count E (length rows)
         \<and> list_all (\<lambda>ch. length ch = stft_frame_count E (length rows)) chans
         \<and> (\<forall>i<c. \<exists>frames.
               stft_frames (NFFT E) (hop_size E) (column rows i) = Inr frames
             \<and> length frames = stft_frame_count E (length rows)
             \<and> list_all (\<lambda>fr. length fr = NFFT E \<and> set fr \<subseteq> set (column rows i)) frames)
         \<and> pad_center (np_hanning (frame_size E)) (NFFT E)
             = Inr (replicate ((NFFT E - frame_size E) div 2) 0 @ np_hanning (frame_size E)
                    @ replicate (NFFT E - frame_size E - (NFFT E - frame_size E) div 2) 0)"
proof -
  let ?T = "stft_frame_count E (length rows)"
  from assms(1) have hop: "0 < hop_size E" and nfft: "1 \<le> NFFT E"
    and win: "frame_size E \<le> NFFT E"
    by (simp_all add: valid_stft_config_def)
  have pc: "pad_center (np_hanning (frame_size E)) (NFFT E)
             = Inr (replicate ((NFFT E - frame_size E) div 2) 0 @ np_hanning (frame_size E)
                    @ replicate (NFFT E - frame_size E - (NFFT E - frame_size E) div 2) 0)"
    using win by (simp add: pad_center_def Let_def np_hanning_length)
  obtain chans where st: "multichannel_stft E (Arr2 c rows) = Inr (Arr3 ?T (NFFT E div 2 + 1) chans)"
    and lc: "length chans = c" and wf: "wf_array (Arr3 ?T (NFFT E div 2 + 1) chans)"
    using multichannel_stft_ok [OF assms] by blast
  from wf have each: "list_all (\<lambda>ch. length ch = ?T) chans" by (auto simp: list_all_iff)
  have T: "1 \<le> ?T" by (simp add: stft_frame_count_def)
  have fr: "\<exists>frames. stft_frames (NFFT E) (hop_size E) (column rows i) = Inr frames
             \<and> length frames = ?T
             \<and> list_all (\<lambda>fr. length fr = NFFT E \<and> set fr \<subseteq> set (column rows i)) frames" for i
  proof -
    from assms(3) have ne: "column rows i \<noteq> []" by (simp add: column_def)
    have len: "length (column rows i) = length rows" by (simp add: column_def)
    from stft_frames_ok [OF hop nfft ne] obtain frames where
      f: "stft_frames (NFFT E) (hop_size E) (column rows i) = Inr frames"
      and lf: "length frames = ?T" and ef: "list_all (\<lambda>f. length f = NFFT E) frames"
      by (auto simp: len stft_frame_count_def)
    from stft_frames_samples [OF f] ef
    have "list_all (\<lambda>fr. length fr = NFFT E \<and> set fr \<subseteq> set (column rows i)) frames"
      by (simp add: list_all_iff)
    with f lf show ?thesis by blast
  qed
  from st lc T each fr pc show ?thesis by blast
qed

theorem multichannel_stft_short_signal_witness:
  "valid_stft_config small_env \<and> (1::nat) \<le> 1 \<and> [[1/4], [1/2 :: real]] \<noteq> []
   \<and> (\<exists>chans. multichannel_stft small_env (Arr2 1 [[1/4], [1/2]]) = Inr (Arr3 2 3 chans)
         \<and> length chans = 1)
   \<and> stft_frames (NFFT small_env) (hop_size small_env) (column [[1/4], [1/2]] 0)
       = Inr [[1/4, 1/2, 1/4, 1/2], [1/4, 1/2, 1/4, 1/2]]"
proof -
  have c: "(1::nat) \<le> 1" by simp
  have r: "[[1/4], [1/2 :: real]] \<noteq> []" by simp
  have T: "stft_frame_count small_env (length [[1/4], [1/2 :: real]]) = 2"
    by (simp add: stft_frame_count_def small_env_def)
  have F: "NFFT small_env div 2 + 1 = 3" by (simp add: small_env_def)
  have fr: "stft_frames (NFFT small_env) (hop_size small_env) (column [[1/4], [1/2]] 0)
       = Inr [[1/4, 1/2, 1/4, 1/2], [1/4, 1/2, 1/4, 1/2]]"
    by code_simp
  from multichannel_stft_short_signal [OF small_env_valid(1) c r]
  obtain chans where
    "multichannel_stft small_env (Arr2 1 [[1/4], [1/2]]) = Inr (Arr3 2 3 chans)" "length chans = 1"
    unfolding T F by blast
  with small_env_valid(1) c r fr show ?thesis by blast
qed

text \<open>
  Two samples \<open>[1/4, 1/2]\<close> with \<open>NFFT = 4\<close> and \<open>hop_size = 2\<close>: the two frames are
  \<open>[1/4, 1/2, 1/4, 1/2]\<close>, made of reflected samples, where padding with zeros would give
  \<open>[0, 0, 1/4, 1/2]\<close> and \<open>[1/4, 1/2, 0, 0]\<close>.
\<close>

theorem multichannel_stft_short_signal_counterexample:
  "stft_frames 4 2 [1/4, 1/2] = Inr [[1/4, 1/2, 1/4, 1/2], [1/4, 1/2, 1/4, 1/2]]
   \<and> stft_frames_zero_padded 4 2 [1/4, 1/2] = [[0, 0, 1/4, 1/2], [1/4, 1/2, 0, 0]]
   \<and> stft_frames 4 2 [1/4, 1/2] \<noteq> Inr (stft_frames_zero_padded 4 2 [1/4, 1/2])"
  by code_simp

text \<open>
  C1 (as amended). For a 3-D feature of shape \<open>[channel, time_frame, mel_bin]\<close>,
  \<open>calculate_scalar_of_tensor\<close> reduces over the axes \<open>(0, 1)\<close>: the mean and the deviation
  are 1-D arrays with one entry per mel bin, each computed over all channels and all
  frames together. Only the mel-bin axis is kept; the channel axis is reduced as well. The
  same holds for the temporal concatenation of the features of a batch.
\<close>

theorem calculate_scalar_of_tensor_per_bin:
  assumes "wf_array (Arr3 t m chans)"
  shows "calculate_scalar_of_tensor (Arr3 t m chans)
           = Inr (Arr1 (map (\<lambda>j. np_mean (bin_values chans j)) [0..<m]),
                  Arr1 (map (\<lambda>j. np_std (bin_values chans j)) [0..<m]))
       \<and> shape (Arr1 (map (\<lambda>j. np_mean (bin_values chans j)) [0..<m])) = [m]
       \<and> shape (Arr1 (map (\<lambda>j. np_std (bin_values chans j)) [0..<m])) = [m]
       \<and> (\<forall>j. length (bin_values chans j) = length chans * t)
       \<and> (\<forall>j. np_mean (bin_values chans j)
               = (if length chans * t = 0 then NaN
                  else Num ((\<Sum>ch\<leftarrow>chans. \<Sum>fr\<leftarrow>ch. fr ! j) / real (length chans * t))))
       \<and> (\<forall>(fs :: real ndarray list) c. fs \<noteq> [] \<and> list_all (is_feature c m) fs \<longrightarrow>
             (\<exists>r mean std. np_concatenate_axis1 fs = Inr r
                \<and> calculate_scalar_of_tensor r = Inr (Arr1 mean, Arr1 std)
                \<and> length mean = m \<and> length std = m))"
proof -
  have len: "\<forall>j. length (bin_values chans j) = length chans * t"
    using bin_values_length [OF assms] by blast
  have mean: "\<forall>j. np_mean (bin_values chans j)
               = (if length chans * t = 0 then NaN
                  else Num ((\<Sum>ch\<leftarrow>chans. \<Sum>fr\<leftarrow>ch. fr ! j) / real (length chans * t)))"
    using len by (simp add: np_mean_acc bin_values_sum)
  have cat: "\<exists>r mean std. np_concatenate_axis1 fs = Inr r
                \<and> calculate_scalar_of_tensor r = Inr (Arr1 mean, Arr1 std)
                \<and> length mean = m \<and> length std = m"
    if "fs \<noteq> []" "list_all (is_feature c m) fs" for fs :: "real ndarray list" and c
  proof -
    from np_concatenate_axis1_feature [OF that] obtain r where
      r: "np_concatenate_axis1 fs = Inr r" "is_feature c m r" by blast
    from r(2) obtain t' X where "r = Arr3 t' m X" by (cases r) auto
    with r(1) show ?thesis by simp
  qed
  have cat': "\<forall>(fs :: real ndarray list) c. fs \<noteq> [] \<and> list_all (is_feature c m) fs \<longrightarrow>
             (\<exists>r mean std. np_concatenate_axis1 fs = Inr r
                \<and> calculate_scalar_of_tensor r = Inr (Arr1 mean, Arr1 std)
                \<and> length mean = m \<and> length std = m)"
  proof (intro allI impI)
    fix fs :: "real ndarray list" and c
    assume "fs \<noteq> [] \<and> list_all (is_feature c m) fs"
    then have "fs \<noteq> []" "list_all (is_feature c m) fs" by simp_all
    then show "\<exists>r mean std. np_concatenate_axis1 fs = Inr r
                \<and> calculate_scalar_of_tensor r = Inr (Arr1 mean, Arr1 std)
                \<and> length mean = m \<and> length std = m"
      by (rule cat)
  qed
  have val: "calculate_scalar_of_tensor (Arr3 t m chans)
           = Inr (Arr1 (map (\<lambda>j. np_mean (bin_values chans j)) [0..<m]),
                  Arr1 (map (\<lambda>j. np_std (bin_values chans j)) [0..<m]))"
    by simp
  have sh: "shape (Arr1 (map (\<lambda>j. np_mean (bin_values chans j)) [0..<m])) = [m]"
    "shape (Arr1 (map (\<lambda>j. np_std (bin_values chans j)) [0..<m])) = [m]"
    by simp_all
  show ?thesis
    by (rule conjI [OF val conjI [OF sh(1) conjI [OF sh(2) conjI [OF len conjI [OF mean cat']]]]])
qed

theorem calculate_scalar_of_tensor_per_bin_witness:
  "wf_array (Arr3 2 1 [[[1], [3]], [[5], [7 :: real]]])
   \<and> calculate_scalar_of_tensor (Arr3 2 1 [[[1], [3]], [[5], [7 :: real]]])
       = Inr (Arr1 [Num 4], Arr1 [np_std [1, 3, 5, 7 :: real]])
   \<and> length (bin_values [[[1], [3]], [[5], [7 :: real]]] 0) = 4"
proof -
  have wf: "wf_array (Arr3 2 1 [[[1], [3]], [[5], [7 :: real]]])" by simp
  have bv: "bin_values [[[1], [3]], [[5], [7 :: real]]] 0 = [1, 3, 5, 7]"
    by (simp add: bin_values_def)
  have mn: "np_mean [1, 3, 5, 7 :: real] = Num 4" by (simp add: np_mean_def)
  have up: "[0..<1] = [0]" by simp
  note th = calculate_scalar_of_tensor_per_bin [OF wf]
  have a: "calculate_scalar_of_tensor (Arr3 2 1 [[[1], [3]], [[5], [7 :: real]]])
       = Inr (Arr1 [Num 4], Arr1 [np_std [1, 3, 5, 7 :: real]])"
    using th [THEN conjunct1] by (simp only: up list.map bv mn)
  have b: "length (bin_values [[[1], [3]], [[5], [7 :: real]]] 0) = 4"
    using th [THEN conjunct2, THEN conjunct2, THEN conjunct2, THEN conjunct1, THEN spec, of 0]
    by simp
  show ?thesis by (rule conjI [OF wf conjI [OF a b]])
qed

text \<open>
  Two channels with one frame and one bin each, holding 0 and 2: the source returns one
  mean, 1, and one deviation, 1, in arrays of shape \<open>[1]\<close>; statistics per channel would
  have the shape \<open>[2, 1]\<close>, with the means 0 and 2 and the deviations 0.
\<close>

theorem calculate_scalar_of_tensor_per_bin_counterexample:
  "calculate_scalar_of_tensor (Arr3 1 1 [[[0]], [[2 :: real]]]) = Inr (Arr1 [Num 1], Arr1 [Num 1])
   \<and> stats_per_channel (Arr3 1 1 [[[0]], [[2]]])
       = (Arr2 1 [[Num 0], [Num 2]], Arr2 1 [[Num 0], [Num 0]])
   \<and> shape (Arr1 [Num (1 :: real)]) = [1]
   \<and> shape (Arr2 1 [[Num (0 :: real)], [Num 2]]) = [2, 1]"
proof -
  have bv: "bin_values [[[0]], [[2 :: real]]] 0 = [0, 2]" by (simp add: bin_values_def)
  have a: "calculate_scalar_of_tensor (Arr3 1 1 [[[0]], [[2 :: real]]])
          = Inr (Arr1 [Num 1], Arr1 [Num 1])"
    by (simp add: bv np_stats_small)
  have b: "stats_per_channel (Arr3 1 1 [[[0]], [[2]]])
       = (Arr2 1 [[Num 0], [Num 2]], Arr2 1 [[Num 0], [Num 0]])"
    by (simp add: np_stats_small)
  have c: "shape (Arr1 [Num (1 :: real)]) = [1]" by simp
  have d: "shape (Arr2 1 [[Num (0 :: real)], [Num 2]]) = [2, 1]" by simp
  show ?thesis by (rule conjI [OF a conjI [OF b conjI [OF c d]]])
qed



text \<open>
  C10. With an empty list \<open>preprocess_data\<close> raises: the loop does nothing and the
  concatenation of no array fails (\<open>random.choice\<close> of an empty list would fail as well,
  but is not reached). The only effect is the directory made; no file is written, neither
  a cache record nor the statistics.
\<close>

theorem preprocess_data_empty_batch:
  "preprocess_data E store rnd [] output_dir output_mean_std_file preprocess_mode fs
     = (Inl ValueError, os_makedirs output_dir fs)
   \<and> files (os_makedirs output_dir fs) = files fs
   \<and> np_concatenate_axis1 ([] :: real ndarray list) = Inl ValueError
   \<and> np_concatenate_axis1 ([] :: complex ndarray list) = Inl ValueError
   \<and> random_choice rnd ([] :: item list) = Inl IndexError"
proof -
  have cat: "np_concatenate_axis1 ([] :: 'a ndarray list) = Inl ValueError"
    by simp
  have run: "run_pipeline E store rnd ext wrap wrap_mean [] output_dir output_mean_std_file
               mode fs' = (Inl ValueError, fs')"
    for ext :: "string \<Rightarrow> error + 'a::real_normed_field ndarray" and wrap wrap_mean mode fs'
    by (simp add: run_pipeline_def)
  have a: "preprocess_data E store rnd [] output_dir output_mean_std_file preprocess_mode fs
             = (Inl ValueError, os_makedirs output_dir fs)"
    by (simp add: preprocess_data_def Let_def run)
  have b: "files (os_makedirs output_dir fs) = files fs"
    by (simp add: os_makedirs_def)
  have c: "random_choice rnd ([] :: item list) = Inl IndexError"
    by (simp add: random_choice_def)
  show ?thesis
    by (rule conjI [OF a conjI [OF b conjI [OF cat conjI [OF cat c]]]])
qed

text \<open>
  C9 (as amended). When the processing of a file of the batch fails, \<open>preprocess_data\<close>
  raises the exception of that file at once: the cache records of the files before it have
  been written, the files after it are not processed, and the statistics file is not
  written at all (it keeps what it held before the run, unless a cache record was written
  to the same path).
\<close>

theorem preprocess_data_file_failure:
  assumes "list_all (processable E store mode) pre"
    and "file_feature E store mode p_bad = Inl err"
  shows "preprocess_data E store rnd (pre @ (p_bad, s, e, n) # post) out stats mode fs
           = (Inl err, (os_makedirs out fs)
                \<lparr>files := files fs ++ map_of (rev (cache_entries E store out mode pre))\<rparr>)
       \<and> (stats \<notin> set (map (\<lambda>(p, s, e, n). cache_path out n mode) pre) \<longrightarrow>
            files (snd (preprocess_data E store rnd (pre @ (p_bad, s, e, n) # post) out stats
                          mode fs)) stats
              = files fs stats)"
proof -
  have run: "preprocess_data E store rnd (pre @ (p_bad, s, e, n) # post) out stats mode fs
           = (Inl err, (os_makedirs out fs)
                \<lparr>files := files fs ++ map_of (rev (cache_entries E store out mode pre))\<rparr>)"
    by (rule preprocess_data_fail [OF assms])
  have "(files fs ++ map_of (rev (cache_entries E store out mode pre))) stats = files fs stats"
    if "stats \<notin> set (map (\<lambda>(p, s, e, n). cache_path out n mode) pre)"
  proof -
    from that have "stats \<notin> fst ` set (rev (cache_entries E store out mode pre))"
      using cache_entries_keys [OF assms(1), of out] by (metis set_map set_rev)
    then have "map_of (rev (cache_entries E store out mode pre)) stats = None"
      by (simp add: map_of_eq_None_iff)
    then show ?thesis by (simp add: map_add_def)
  qed
  with run show ?thesis by simp
qed

theorem preprocess_data_file_failure_witness:
  "list_all (processable small_env small_store ''logMel'') [(''stereo.wav'', [0], [1], ''s'')]
   \<and> file_feature small_env small_store ''logMel'' ''missing.wav'' = Inl SoundFileError
   \<and> fst (preprocess_data small_env small_store 0
         ([(''stereo.wav'', [0], [1], ''s'')] @ (''missing.wav'', [], [], ''m'')
            # [(''mono.wav'', [], [], ''o'')])
         ''out'' ''out/stats.pkl'' ''logMel'' empty_fs) = Inl SoundFileError
   \<and> files (snd (preprocess_data small_env small_store 0
         ([(''stereo.wav'', [0], [1], ''s'')] @ (''missing.wav'', [], [], ''m'')
            # [(''mono.wav'', [], [], ''o'')])
         ''out'' ''out/stats.pkl'' ''logMel'' empty_fs)) ''out/stats.pkl'' = None"
proof -
  have pre: "list_all (processable small_env small_store ''logMel'')
               [(''stereo.wav'', [0], [1], ''s'')]"
    by (simp add: small_stereo_processable del: processable.simps)
  have bad: "file_feature small_env small_store ''logMel'' ''missing.wav'' = Inl SoundFileError"
    by (rule small_missing)
  have nk: "''out/stats.pkl'' \<notin> set (map (\<lambda>(p, s, e, n). cache_path ''out'' n ''logMel'')
                                       [(''stereo.wav'', [0], [1], ''s'')])"
    by (simp add: cache_path_def os_path_join_def)
  note th = preprocess_data_file_failure [OF pre bad, of 0 "[]" "[]" "''m''"
               "[(''mono.wav'', [], [], ''o'')]" "''out''" "''out/stats.pkl''" empty_fs]
  from th have a: "fst (preprocess_data small_env small_store 0
         ([(''stereo.wav'', [0], [1], ''s'')] @ (''missing.wav'', [], [], ''m'')
            # [(''mono.wav'', [], [], ''o'')])
         ''out'' ''out/stats.pkl'' ''logMel'' empty_fs) = Inl SoundFileError"
    by (simp only: fst_conv)
  from th [THEN conjunct2] nk have b: "files (snd (preprocess_data small_env small_store 0
         ([(''stereo.wav'', [0], [1], ''s'')] @ (''missing.wav'', [], [], ''m'')
            # [(''mono.wav'', [], [], ''o'')])
         ''out'' ''out/stats.pkl'' ''logMel'' empty_fs)) ''out/stats.pkl'' = None"
    by (simp add: empty_fs_def)
  show ?thesis by (rule conjI [OF pre conjI [OF bad conjI [OF a b]]])
qed

text \<open>
  A batch whose first file cannot be read: the run ends with the exception, nothing but
  the directory exists afterwards, and in particular no statistics of the second file,
  which a run on the second file alone does write.
\<close>

theorem preprocess_data_file_failure_counterexample:
  "preprocess_data small_env small_store 0
     [(''missing.wav'', [], [], ''m''), (''stereo.wav'', [0], [1], ''s'')]
     ''out'' ''out/stats.pkl'' ''logMel'' empty_fs
     = (Inl SoundFileError, \<lparr>files = Map.empty, dirs = {''out''}\<rparr>)
   \<and> files (snd (preprocess_data small_env small_store 0 [(''stereo.wav'', [0], [1], ''s'')]
                    ''out'' ''out/stats.pkl'' ''logMel'' empty_fs)) ''out/stats.pkl'' \<noteq> None"
proof -
  have a: "preprocess_data small_env small_store 0
     [(''missing.wav'', [], [], ''m''), (''stereo.wav'', [0], [1], ''s'')]
     ''out'' ''out/stats.pkl'' ''logMel'' empty_fs
     = (Inl SoundFileError, \<lparr>files = Map.empty, dirs = {''out''}\<rparr>)"
    by (simp add: preprocess_data_def run_pipeline_def extract_logmel_def extract_stft_def
        read_multichannel_audio_def soundfile_read_def small_store_def os_makedirs_def
        empty_fs_def Let_def)
  have ok: "\<exists>f. extract_logmel small_env small_store (fst it) = Inr f \<and> is_feature 2 2 f"
    if "it \<in> set [(''stereo.wav'', [0], [1], ''s'')]" for it :: item
    using that small_stereo(2) by auto
  have ne: "[(''stereo.wav'', [0], [1], ''s'') :: item] \<noteq> []" by simp
  from run_pipeline_stats [where ext = "extract_logmel small_env small_store" and c = 2
         and m = 2 and E = small_env and store = small_store and rnd = 0 and wrap = LogMel
         and wrap_mean = RealArray and out = "''out''" and stats = "''out/stats.pkl''"
         and mode = "''logMel''" and fs = "os_makedirs ''out'' empty_fs", OF ne ok]
  have b: "files (snd (preprocess_data small_env small_store 0 [(''stereo.wav'', [0], [1], ''s'')]
                    ''out'' ''out/stats.pkl'' ''logMel'' empty_fs)) ''out/stats.pkl'' \<noteq> None"
    by (auto simp: preprocess_data_def Let_def)
  show ?thesis by (rule conjI [OF a b])
qed




end
